theory Spec2Isabelle
  imports Main "HOL-Library.Word"
begin

section \<open>The PapaDuck sketch: data\<close>

text \<open>
  A shallow embedding of \<^verbatim>\<open>examples/1.Ducks/PapaDuck/PapaDuck.ino\<close>. The sketch is a
  single-threaded control loop; its global variables are the fields of \<open>state\<close>, every
  function of the sketch is a function from state to state, and everything the sketch
  asks of its collaborators (the duck, the MQTT client, the clock) is an explicit input.
\<close>

type_synonym byte = "8 word"

text \<open>\<^verbatim>\<open>unsigned long\<close> milliseconds of the 32-bit target, as the timer reads them.\<close>
type_synonym millis = "32 word"

text \<open>
  The enumeration \<^verbatim>\<open>topics\<close> is declared by the SDK headers, which are not part of
  the sketch: its six codes used by the sketch are taken as a parameter.
\<close>
record topics =
  status :: byte
  cpm :: byte
  sensor :: byte
  alert :: byte
  location :: byte
  health :: byte

text \<open>
  The fields of a \<^verbatim>\<open>CdpPacket\<close> that \<^verbatim>\<open>quackJson\<close> reads. The class is declared in
  \<^verbatim>\<open>CdpPacket.h\<close>, outside the sketch; the sketch builds one from a buffer with the
  constructor and reads the fields, nothing more.
\<close>
record CdpPacket =
  sduid :: "byte list"
  dduid :: "byte list"
  muid :: "byte list"
  path :: "byte list"
  data :: "byte list"
  hopCount :: int
  duckType :: int
  topic :: byte

text \<open>A JSON object as it is serialised: members in insertion order.\<close>
datatype json = JNull | JString "byte list" | JNumber int

type_synonym JsonObject = "(string \<times> json) list"

text \<open>
  \<^verbatim>\<open>StaticJsonDocument<bufferSize>\<close>: a document with a fixed pool of \<open>capacity\<close>
  bytes, of which \<open>used\<close> are taken by the slots of the members and by the copies of
  the string values.
\<close>
record StaticJsonDocument =
  capacity :: nat
  used :: nat
  members :: JsonObject

text \<open>
  What the sketch does not decide: the \<^verbatim>\<open>CdpPacket\<close> constructor, the topic codes,
  the library macro \<^verbatim>\<open>JSON_OBJECT_SIZE\<close> (the bytes that the slots of n members
  take), and the result of the n-th call of \<^verbatim>\<open>client.publish\<close> since start-up.
\<close>
record env =
  CdpPacket_of :: "byte list \<Rightarrow> CdpPacket"
  topic_codes :: topics
  JSON_OBJECT_SIZE :: "nat \<Rightarrow> nat"
  client_publish :: "nat \<Rightarrow> bool"

text \<open>
  The globals of the sketch (\<open>QUEUE_SIZE_MAX\<close>, \<open>packetQueue\<close>, \<open>retry\<close>,
  \<open>use_auth_method\<close>, \<open>timer\<close>) and the trace of its calls to the collaborators.
  \<open>QUEUE_SIZE_MAX\<close> is an \<^verbatim>\<open>int\<close> initialised to 5 and never assigned; its
  non-negative values are modelled. A task of \<open>timer\<close> is (start, delay); the only
  handler ever registered is \<^verbatim>\<open>enableRetry\<close>. \<open>publish_log\<close> holds one entry per
  call of \<^verbatim>\<open>client.publish\<close>: topic, document, result. \<open>connect_log\<close> holds one
  entry per call of \<^verbatim>\<open>client.connect\<close> (whether credentials were passed), and
  \<open>wifi_reconnects\<close> counts the calls of \<^verbatim>\<open>duck.reconnectWifi\<close>.
\<close>
record state =
  QUEUE_SIZE_MAX :: nat
  packetQueue :: "byte list list"
  retry :: bool
  use_auth_method :: bool
  timer :: "(millis \<times> millis) list"
  publish_log :: "(string \<times> JsonObject \<times> bool) list"
  connect_log :: "bool list"
  wifi_reconnects :: nat

text \<open>
  What one pass of \<^verbatim>\<open>loop()\<close> observes: the two answers of
  \<^verbatim>\<open>duck.isWifiConnected()\<close>, whether \<^verbatim>\<open>duck.reconnectWifi\<close> returned
  \<^verbatim>\<open>DUCK_ERR_NONE\<close>, \<^verbatim>\<open>client.connected()\<close>, the result of
  \<^verbatim>\<open>client.connect\<close>, the clock when a timer is armed (a pass arms at most one: a
  failed local reconnect clears \<open>retry\<close>, which skips \<^verbatim>\<open>setup_mqtt\<close>), the packets
  that \<^verbatim>\<open>duck.run()\<close> hands to the callback, and the clock at \<^verbatim>\<open>timer.tick()\<close>.
\<close>
record tick_in =
  wifi_connected1 :: bool
  reconnect_ok :: bool
  wifi_connected2 :: bool
  client_connected :: bool
  connect_ok :: bool
  t_arm :: millis
  received :: "byte list list"
  t_tick :: millis

definition initial :: state where
  "initial = \<lparr>QUEUE_SIZE_MAX = 5, packetQueue = [], retry = True, use_auth_method = True,
     timer = [], publish_log = [], connect_log = [], wifi_reconnects = 0\<rparr>"

section \<open>The functions of the sketch\<close>

definition toTopicString :: "topics \<Rightarrow> byte \<Rightarrow> string" where
  "toTopicString tp t =
     (if t = status tp then ''status''
      else if t = cpm tp then ''portal''
      else if t = sensor tp then ''sensor''
      else if t = alert tp then ''alert''
      else if t = location tp then ''gps''
      else if t = health tp then ''health''
      else ''status'')"

text \<open>The value of member \<open>k\<close> becomes \<open>v\<close>; a member that is not there is appended.\<close>
fun doc_set :: "string \<Rightarrow> json \<Rightarrow> JsonObject \<Rightarrow> JsonObject" where
  "doc_set k v [] = [(k, v)]"
| "doc_set k v ((k', v') # d) = (if k' = k then (k, v) # d else (k', v') # doc_set k v d)"

text \<open>
  The document comes from the ArduinoJson library, outside the sketch; its assignments
  are modelled as the library documents them. \<^verbatim>\<open>doc[key]\<close> finds the member or adds
  it, which takes one slot of the pool; when the pool has no room for the slot there is
  no member and the assignment is lost. The keys are string literals and are not copied.
\<close>
definition getOrAddMember ::
  "nat \<Rightarrow> string \<Rightarrow> StaticJsonDocument \<Rightarrow> bool \<times> StaticJsonDocument" where
  "getOrAddMember slot k d =
     (if k \<in> set (map fst (members d)) then (True, d)
      else if used d + slot \<le> capacity d
        then (True, d\<lparr>used := used d + slot, members := members d @ [(k, JNull)]\<rparr>)
      else (False, d))"

text \<open>
  Assigning a \<^verbatim>\<open>std::string\<close>: the bytes and a terminator are copied into the pool;
  when the pool has no room for the copy the member is null. Every copy is charged in
  full (a library version that shares the storage of equal strings uses no more).
\<close>
definition set_string ::
  "nat \<Rightarrow> string \<Rightarrow> byte list \<Rightarrow> StaticJsonDocument \<Rightarrow> StaticJsonDocument" where
  "set_string slot k v d =
     (case getOrAddMember slot k d of
        (found, d1) \<Rightarrow>
          if found then
            (if used d1 + (length v + 1) \<le> capacity d1
             then d1\<lparr>used := used d1 + (length v + 1),
                    members := doc_set k (JString v) (members d1)\<rparr>
             else d1\<lparr>members := doc_set k JNull (members d1)\<rparr>)
          else d1)"

text \<open>Assigning an integer: the value lives in the member's slot.\<close>
definition set_number ::
  "nat \<Rightarrow> string \<Rightarrow> int \<Rightarrow> StaticJsonDocument \<Rightarrow> StaticJsonDocument" where
  "set_number slot k n d =
     (case getOrAddMember slot k d of
        (found, d1) \<Rightarrow>
          if found then d1\<lparr>members := doc_set k (JNumber n) (members d1)\<rparr> else d1)"

text \<open>
  The document that \<^verbatim>\<open>quackJson\<close> builds from the decoded packet, in a pool of
  \<open>bufferSize\<close> bytes with slots of \<open>slot\<close> bytes, and the topic it publishes to.
\<close>
definition quack_doc :: "nat \<Rightarrow> nat \<Rightarrow> CdpPacket \<Rightarrow> JsonObject" where
  "quack_doc bufferSize slot packet =
     members
       (set_number slot ''duckType'' (duckType packet)
         (set_number slot ''hops'' (hopCount packet)
           (set_string slot ''path'' (path packet)
             (set_string slot ''Payload'' (data packet)
               (set_string slot ''MessageID'' (muid packet)
                 (set_string slot ''DeviceID'' (sduid packet)
                   \<lparr>capacity = bufferSize, used = 0, members = []\<rparr>))))))"

definition quack_topic :: "topics \<Rightarrow> CdpPacket \<Rightarrow> string" where
  "quack_topic tp packet = ''iot-2/evt/'' @ toTopicString tp (topic packet) @ ''/fmt/json''"

text \<open>
  \<^verbatim>\<open>quackJson\<close>: decode, build the document, publish; 0 when the publish succeeded and
  -1 when it failed. The serial and display output is not modelled.
\<close>
definition quackJson :: "env \<Rightarrow> byte list \<Rightarrow> state \<Rightarrow> int \<times> state" where
  "quackJson e packetBuffer s =
     (let packet = CdpPacket_of e packetBuffer;
          bufferSize = 4 * JSON_OBJECT_SIZE e 4;
          doc = quack_doc bufferSize (JSON_OBJECT_SIZE e 1) packet;
          tpc = quack_topic (topic_codes e) packet;
          ok = client_publish e (length (publish_log s));
          s' = s\<lparr>publish_log := publish_log s @ [(tpc, doc, ok)]\<rparr>
      in if ok then (0, s') else (- 1, s'))"

definition handleDuckData :: "env \<Rightarrow> byte list \<Rightarrow> state \<Rightarrow> state" where
  "handleDuckData e packetBuffer s =
     (case quackJson e packetBuffer s of (r, s1) \<Rightarrow>
        if r = - 1 then
          (if length (packetQueue s1) > QUEUE_SIZE_MAX s1
           then s1\<lparr>packetQueue := tl (packetQueue s1) @ [packetBuffer]\<rparr>
           else s1\<lparr>packetQueue := packetQueue s1 @ [packetBuffer]\<rparr>)
        else s1)"

function publishQueue :: "env \<Rightarrow> state \<Rightarrow> state" where
  "publishQueue e s =
     (if packetQueue s \<noteq> [] then
        (case quackJson e (hd (packetQueue s)) s of (r, s1) \<Rightarrow>
           if r = 0 then publishQueue e (s1\<lparr>packetQueue := tl (packetQueue s1)\<rparr>)
           else s1)
      else s)"
  by pat_completeness auto
termination
  apply (relation "measure (\<lambda>(e, s). length (packetQueue s))")
   apply simp
  apply (auto simp: quackJson_def Let_def split: if_splits)
  done

declare publishQueue.simps [simp del]

text \<open>
  The timer comes from the arduino-timer library, outside the sketch; the sketch uses
  \<^verbatim>\<open>in\<close> and \<^verbatim>\<open>tick\<close> only, modelled as the library documents them.
  \<^verbatim>\<open>timer.in(delay, enableRetry)\<close>: a one-shot task started at the current clock. The
  default timer holds at most 16 tasks and ignores a request when full.
\<close>
definition timer_in :: "millis \<Rightarrow> millis \<Rightarrow> state \<Rightarrow> state" where
  "timer_in now delay s =
     (if length (timer s) < 16 then s\<lparr>timer := timer s @ [(now, delay)]\<rparr> else s)"

definition enableRetry :: "state \<Rightarrow> state" where
  "enableRetry s = s\<lparr>retry := True\<rparr>"

text \<open>
  \<^verbatim>\<open>timer.tick()\<close>: every task whose delay has elapsed (unsigned difference of the
  clock and the start, so the 32-bit wrap-around of the clock is harmless) runs its handler
  and, being one-shot, is removed. One clock reading serves the whole call.
\<close>
fun run_tasks :: "millis \<Rightarrow> (millis \<times> millis) list \<Rightarrow> state \<Rightarrow> state" where
  "run_tasks t [] s = s"
| "run_tasks t ((start, expires) # ts) s =
     (if t - start \<ge> expires then run_tasks t ts (enableRetry s) else run_tasks t ts s)"

definition timer_tick :: "millis \<Rightarrow> state \<Rightarrow> state" where
  "timer_tick t s =
     run_tasks t (timer s)
       (s\<lparr>timer := filter (\<lambda>(start, expires). \<not> t - start \<ge> expires) (timer s)\<rparr>)"

definition retry_mqtt_connection :: "millis \<Rightarrow> millis \<Rightarrow> state \<Rightarrow> state" where
  "retry_mqtt_connection now delay_ms s = timer_in now delay_ms (s\<lparr>retry := False\<rparr>)"

definition setup_mqtt :: "env \<Rightarrow> tick_in \<Rightarrow> bool \<Rightarrow> state \<Rightarrow> state" where
  "setup_mqtt e i use_auth s =
     (if client_connected i then
        (if length (packetQueue s) > 0 then publishQueue e s else s)
      else
        (let s1 = s\<lparr>connect_log := connect_log s @ [use_auth]\<rparr> in
         if connect_ok i then
           (if length (packetQueue s1) > 0 then publishQueue e s1 else s1)
         else retry_mqtt_connection (t_arm i) 1000 s1))"

text \<open>\<^verbatim>\<open>duck.run()\<close> hands each received packet to the registered callback.\<close>
definition duck_run :: "env \<Rightarrow> byte list list \<Rightarrow> state \<Rightarrow> state" where
  "duck_run e ps s = foldl (\<lambda>s p. handleDuckData e p s) s ps"

definition loop :: "env \<Rightarrow> tick_in \<Rightarrow> state \<Rightarrow> state" where
  "loop e i s =
     (let s1 = (if \<not> wifi_connected1 i \<and> retry s then
                  (let s' = s\<lparr>wifi_reconnects := wifi_reconnects s + 1\<rparr> in
                   if \<not> reconnect_ok i then timer_in (t_arm i) 5000 (s'\<lparr>retry := False\<rparr>)
                   else s')
                else s);
          s2 = (if wifi_connected2 i \<and> retry s1 then setup_mqtt e i (use_auth_method s1) s1
                else s1);
          s3 = duck_run e (received i) s2
      in timer_tick (t_tick i) s3)"

text \<open>The sketch after start-up: \<^verbatim>\<open>loop()\<close> again and again, one input per pass.\<close>
definition run :: "env \<Rightarrow> tick_in list \<Rightarrow> state \<Rightarrow> state" where
  "run e ins s = foldl (\<lambda>s i. loop e i s) s ins"

text \<open>The entry that a publish of buffer \<open>p\<close> with result \<open>ok\<close> leaves in the trace.\<close>
definition publish_entry :: "env \<Rightarrow> byte list \<Rightarrow> bool \<Rightarrow> string \<times> JsonObject \<times> bool" where
  "publish_entry e p ok =
     (quack_topic (topic_codes e) (CdpPacket_of e p),
      quack_doc (4 * JSON_OBJECT_SIZE e 4) (JSON_OBJECT_SIZE e 1) (CdpPacket_of e p), ok)"

section \<open>The decoder, from the spec\<close>








section \<open>Sample collaborators and inputs\<close>

text \<open>
  Sample values of the parameters, for running the model on concrete inputs; no general
  theorem below depends on them. The sample constructor slices a frame of 28 bytes or
  more at fixed offsets, and the runs below hand it frames of 28 bytes only
  (\<open>sample_frame\<close>: a source id and zeros). Six distinct topic codes, slots of 16 bytes
  as on the 32-bit target, a frame format with a minimum of 28 bytes, and a broker whose
  n-th publish succeeds exactly when the script says so (it fails once the script is
  exhausted).
\<close>
definition byte_at :: "nat \<Rightarrow> byte list \<Rightarrow> byte" where
  "byte_at n buf = (case drop n buf of [] \<Rightarrow> 0 | b # _ \<Rightarrow> b)"

definition sample_CdpPacket :: "byte list \<Rightarrow> CdpPacket" where
  "sample_CdpPacket buf =
     \<lparr>sduid = take 8 buf, dduid = take 8 (drop 8 buf), muid = take 4 (drop 16 buf),
      path = [], data = drop 28 buf, hopCount = uint (byte_at 23 buf),
      duckType = uint (byte_at 22 buf), topic = byte_at 20 buf\<rparr>"

definition sample_topics :: topics where
  "sample_topics = \<lparr>status = 16, cpm = 17, sensor = 18, alert = 19, location = 20, health = 21\<rparr>"

definition scripted :: "bool list \<Rightarrow> env" where
  "scripted outcomes =
     \<lparr>CdpPacket_of = sample_CdpPacket, topic_codes = sample_topics,
      JSON_OBJECT_SIZE = (\<lambda>n. n * 16),
      client_publish = (\<lambda>n. n < length outcomes \<and> outcomes ! n)\<rparr>"

definition sample_frame :: "byte \<Rightarrow> byte list" where
  "sample_frame k = replicate 8 k @ replicate 20 0"


text \<open>A pass with the local network down and the reconnect failing.\<close>
definition wifi_down :: "millis \<Rightarrow> byte list list \<Rightarrow> tick_in" where
  "wifi_down t ps =
     \<lparr>wifi_connected1 = False, reconnect_ok = False, wifi_connected2 = False,
      client_connected = False, connect_ok = False, t_arm = t, received = ps, t_tick = t\<rparr>"

text \<open>A pass with the local network up, the client not connected and the connect failing.\<close>
definition broker_down :: "millis \<Rightarrow> byte list list \<Rightarrow> tick_in" where
  "broker_down t ps =
     \<lparr>wifi_connected1 = True, reconnect_ok = True, wifi_connected2 = True,
      client_connected = False, connect_ok = False, t_arm = t, received = ps, t_tick = t\<rparr>"

text \<open>A pass with the local network up, the client not connected and the connect succeeding.\<close>
definition broker_up :: "millis \<Rightarrow> byte list list \<Rightarrow> tick_in" where
  "broker_up t ps =
     \<lparr>wifi_connected1 = True, reconnect_ok = True, wifi_connected2 = True,
      client_connected = False, connect_ok = True, t_arm = t, received = ps, t_tick = t\<rparr>"

text \<open>A pass with the local network up and the client reporting connected.\<close>
definition connected_pass :: "millis \<Rightarrow> byte list list \<Rightarrow> tick_in" where
  "connected_pass t ps =
     \<lparr>wifi_connected1 = True, reconnect_ok = True, wifi_connected2 = True,
      client_connected = True, connect_ok = True, t_arm = t, received = ps, t_tick = t\<rparr>"

text \<open>
  The flag and the timer go together: no task is pending while \<open>retry\<close> is set, and
  exactly one is while it is cleared.
\<close>
definition timer_inv :: "state \<Rightarrow> bool" where
  "timer_inv s = (if retry s then timer s = [] else length (timer s) = 1)"

section \<open>Basic facts\<close>

lemma quackJson_eq:
  "quackJson e p s =
     (if client_publish e (length (publish_log s)) then 0 else - 1,
      s\<lparr>publish_log := publish_log s @
          [publish_entry e p (client_publish e (length (publish_log s)))]\<rparr>)"
  by (simp add: quackJson_def publish_entry_def Let_def)

lemma handleDuckData_eq:
  "handleDuckData e p s =
     (if client_publish e (length (publish_log s))
      then s\<lparr>publish_log := publish_log s @ [publish_entry e p True]\<rparr>
      else s\<lparr>publish_log := publish_log s @ [publish_entry e p False],
             packetQueue := (if QUEUE_SIZE_MAX s < length (packetQueue s)
                             then tl (packetQueue s) else packetQueue s) @ [p]\<rparr>)"
  by (simp add: handleDuckData_def quackJson_eq)

lemma publishQueue_Nil: "packetQueue s = [] \<Longrightarrow> publishQueue e s = s"
  by (simp add: publishQueue.simps)

lemma publishQueue_ok:
  "packetQueue s = p # q \<Longrightarrow> client_publish e (length (publish_log s)) \<Longrightarrow>
   publishQueue e s =
     publishQueue e (s\<lparr>publish_log := publish_log s @ [publish_entry e p True],
                       packetQueue := q\<rparr>)"
  by (subst publishQueue.simps) (simp add: quackJson_eq)

lemma publishQueue_fail:
  "packetQueue s = p # q \<Longrightarrow> \<not> client_publish e (length (publish_log s)) \<Longrightarrow>
   publishQueue e s = s\<lparr>publish_log := publish_log s @ [publish_entry e p False]\<rparr>"
  by (subst publishQueue.simps) (simp add: quackJson_eq)

text \<open>As long as the publishes succeed, a drain pass eats the queue from the front.\<close>
lemma publishQueue_prefix:
  "k \<le> length (packetQueue s) \<Longrightarrow>
   \<forall>i<k. client_publish e (length (publish_log s) + i) \<Longrightarrow>
   publishQueue e s =
     publishQueue e (s\<lparr>publish_log := publish_log s @
                          map (\<lambda>p. publish_entry e p True) (take k (packetQueue s)),
                       packetQueue := drop k (packetQueue s)\<rparr>)"
proof (induction k arbitrary: s)
  case 0
  then show ?case by simp
next
  case (Suc k)
  from Suc.prems obtain p q where pq: "packetQueue s = p # q"
    by (cases "packetQueue s") auto
  let ?s1 = "s\<lparr>publish_log := publish_log s @ [publish_entry e p True], packetQueue := q\<rparr>"
  have ok: "client_publish e (length (publish_log s))"
    using Suc.prems(2) by (metis add.right_neutral zero_less_Suc)
  have step: "publishQueue e s = publishQueue e ?s1"
    using pq ok by (rule publishQueue_ok)
  have "k \<le> length (packetQueue ?s1)" using Suc.prems(1) pq by simp
  moreover have "\<forall>i<k. client_publish e (length (publish_log ?s1) + i)"
    using Suc.prems(2) by (auto simp: dest: spec [of _ "Suc i" for i])
  ultimately have "publishQueue e ?s1 =
     publishQueue e (?s1\<lparr>publish_log := publish_log ?s1 @
                          map (\<lambda>p. publish_entry e p True) (take k (packetQueue ?s1)),
                       packetQueue := drop k (packetQueue ?s1)\<rparr>)"
    by (rule Suc.IH)
  with step pq show ?case by simp
qed

section \<open>The topic router\<close>

text \<open>
  C7. \<^verbatim>\<open>toTopicString\<close> is total: for every topic code it returns one of the six topic
  names, and every code outside the enumerated set
  \{status, cpm, sensor, alert, location, health\} gives the default \<open>''status''\<close>.
\<close>
theorem toTopicString_total_default:
  "toTopicString tp t \<in> {''status'', ''portal'', ''sensor'', ''alert'', ''gps'', ''health''} \<and>
   (t \<notin> {status tp, cpm tp, sensor tp, alert tp, location tp, health tp} \<longrightarrow>
      toTopicString tp t = ''status'')"
  by (simp add: toTopicString_def)

theorem toTopicString_total_default_witness:
  "(255 :: byte) \<notin> {16, 17, 18, 19, 20, 21} \<and>
   toTopicString \<lparr>status = 16, cpm = 17, sensor = 18, alert = 19, location = 20, health = 21\<rparr> 255
     = ''status''"
  using toTopicString_total_default
    [of "\<lparr>status = 16, cpm = 17, sensor = 18, alert = 19, location = 20, health = 21\<rparr>" 255]
  by simp

section \<open>The receive callback and the retention queue\<close>

text \<open>
  C1. Six packets (one more than \<open>QUEUE_SIZE_MAX = 5\<close>) arrive while every publish
  fails, starting from the empty queue. The claim expects the queue to hold the last five;
  the callback evicts only when the size already exceeds \<open>QUEUE_SIZE_MAX\<close>, so all six
  are retained and the oldest has not been dropped.
\<close>
theorem handleDuckData_six_failed_packets:
  "packetQueue (duck_run (scripted []) [sample_frame 1, sample_frame 2, sample_frame 3, sample_frame 4, sample_frame 5, sample_frame 6] initial)
     = [sample_frame 1, sample_frame 2, sample_frame 3, sample_frame 4, sample_frame 5, sample_frame 6] \<and>
   packetQueue (duck_run (scripted []) [sample_frame 1, sample_frame 2, sample_frame 3, sample_frame 4, sample_frame 5, sample_frame 6] initial)
     \<noteq> [sample_frame 2, sample_frame 3, sample_frame 4, sample_frame 5, sample_frame 6]"
  by (simp add: duck_run_def handleDuckData_eq scripted_def initial_def)

text \<open>
  C2. After six passes of the loop, each delivering one packet while the local network is
  down, the sketch is between two callbacks, outside any insert step, and the queue holds
  six packets: more than the capacity \<open>QUEUE_SIZE_MAX = 5\<close> that the claim gives as
  the bound.
\<close>
theorem packetQueue_exceeds_QUEUE_SIZE_MAX:
  "length (packetQueue (run (scripted [])
      [wifi_down 0 [sample_frame 1], wifi_down 100 [sample_frame 2], wifi_down 200 [sample_frame 3], wifi_down 300 [sample_frame 4],
       wifi_down 400 [sample_frame 5], wifi_down 500 [sample_frame 6]] initial)) = 6 \<and>
   QUEUE_SIZE_MAX (run (scripted [])
      [wifi_down 0 [sample_frame 1], wifi_down 100 [sample_frame 2], wifi_down 200 [sample_frame 3], wifi_down 300 [sample_frame 4],
       wifi_down 400 [sample_frame 5], wifi_down 500 [sample_frame 6]] initial) = 5"
  by (simp add: run_def loop_def duck_run_def handleDuckData_eq timer_tick_def timer_in_def
      enableRetry_def scripted_def wifi_down_def initial_def Let_def)

section \<open>The published message\<close>

lemma doc_set_fresh:
  "k \<notin> set (map fst ms) \<Longrightarrow> doc_set k v (ms @ [(k, w)]) = ms @ [(k, v)]"
  by (induction ms) auto

lemma set_string_fresh:
  assumes "k \<notin> set (map fst (members d))"
    and "used d + slot + (length v + 1) \<le> capacity d"
  shows "set_string slot k v d =
     d\<lparr>used := used d + slot + (length v + 1), members := members d @ [(k, JString v)]\<rparr>"
  using assms by (simp add: set_string_def getOrAddMember_def doc_set_fresh)

lemma set_number_fresh:
  assumes "k \<notin> set (map fst (members d))" and "used d + slot \<le> capacity d"
  shows "set_number slot k n d =
     d\<lparr>used := used d + slot, members := members d @ [(k, JNumber n)]\<rparr>"
  using assms by (simp add: set_number_def getOrAddMember_def doc_set_fresh)

text \<open>When the six slots and the four copies fit in the pool, the document is complete.\<close>
lemma quack_doc_fits:
  assumes "6 * slot + (length (sduid pk) + 1) + (length (muid pk) + 1)
             + (length (data pk) + 1) + (length (path pk) + 1) \<le> bufferSize"
  shows "quack_doc bufferSize slot pk =
     [(''DeviceID'', JString (sduid pk)), (''MessageID'', JString (muid pk)),
      (''Payload'', JString (data pk)), (''path'', JString (path pk)),
      (''hops'', JNumber (hopCount pk)), (''duckType'', JNumber (duckType pk))]"
proof -
  let ?d0 = "\<lparr>capacity = bufferSize, used = 0, members = []\<rparr>"
  let ?a = "length (sduid pk) + 1" and ?b = "length (muid pk) + 1"
  let ?c = "length (data pk) + 1" and ?p = "length (path pk) + 1"
  let ?d1 = "\<lparr>capacity = bufferSize, used = slot + ?a,
      members = [(''DeviceID'', JString (sduid pk))]\<rparr>"
  let ?d2 = "\<lparr>capacity = bufferSize, used = slot + ?a + slot + ?b,
      members = [(''DeviceID'', JString (sduid pk)), (''MessageID'', JString (muid pk))]\<rparr>"
  let ?d3 = "\<lparr>capacity = bufferSize, used = slot + ?a + slot + ?b + slot + ?c,
      members = [(''DeviceID'', JString (sduid pk)), (''MessageID'', JString (muid pk)),
        (''Payload'', JString (data pk))]\<rparr>"
  let ?d4 = "\<lparr>capacity = bufferSize, used = slot + ?a + slot + ?b + slot + ?c + slot + ?p,
      members = [(''DeviceID'', JString (sduid pk)), (''MessageID'', JString (muid pk)),
        (''Payload'', JString (data pk)), (''path'', JString (path pk))]\<rparr>"
  let ?d5 = "\<lparr>capacity = bufferSize,
      used = slot + ?a + slot + ?b + slot + ?c + slot + ?p + slot,
      members = [(''DeviceID'', JString (sduid pk)), (''MessageID'', JString (muid pk)),
        (''Payload'', JString (data pk)), (''path'', JString (path pk)),
        (''hops'', JNumber (hopCount pk))]\<rparr>"
  have 1: "set_string slot ''DeviceID'' (sduid pk) ?d0 = ?d1"
    using assms by (subst set_string_fresh) simp_all
  have 2: "set_string slot ''MessageID'' (muid pk) ?d1 = ?d2"
    using assms by (subst set_string_fresh) simp_all
  have 3: "set_string slot ''Payload'' (data pk) ?d2 = ?d3"
    using assms by (subst set_string_fresh) simp_all
  have 4: "set_string slot ''path'' (path pk) ?d3 = ?d4"
    using assms by (subst set_string_fresh) simp_all
  have 5: "set_number slot ''hops'' (hopCount pk) ?d4 = ?d5"
    using assms by (subst set_number_fresh) simp_all
  have 6: "members (set_number slot ''duckType'' (duckType pk) ?d5) =
     [(''DeviceID'', JString (sduid pk)), (''MessageID'', JString (muid pk)),
      (''Payload'', JString (data pk)), (''path'', JString (path pk)),
      (''hops'', JNumber (hopCount pk)), (''duckType'', JNumber (duckType pk))]"
    using assms by (subst set_number_fresh) simp_all
  show ?thesis unfolding quack_doc_def 1 2 3 4 5 6 ..
qed

text \<open>
  C9. \<^verbatim>\<open>quackJson\<close> publishes, to the topic \<open>iot-2/evt/\<close> + the router's name for
  the packet's topic code + \<open>/fmt/json\<close>, the document it has built in a pool of
  \<open>4 * JSON_OBJECT_SIZE(4)\<close> bytes. On the 32-bit target that is 256 bytes, of which
  the six slots take 96: a decoded packet with an 8-byte source id, a 4-byte message id
  and a payload of 200 bytes does not fit, and the message goes out with the member
  Payload null instead of the payload of the packet, where the claim expects the six
  fields taken from the packet.
\<close>
theorem quackJson_long_payload_is_null:
  "publish_log (snd (quackJson e p s)) =
     publish_log s @
       [(''iot-2/evt/'' @ toTopicString (topic_codes e) (topic (CdpPacket_of e p)) @ ''/fmt/json'',
         quack_doc (4 * JSON_OBJECT_SIZE e 4) (JSON_OBJECT_SIZE e 1) (CdpPacket_of e p),
         client_publish e (length (publish_log s)))] \<and>
   quack_doc (4 * (4 * 16)) (1 * 16)
       \<lparr>sduid = replicate 8 68, dduid = replicate 8 80, muid = replicate 4 77, path = [],
        data = replicate 200 65, hopCount = 1, duckType = 2, topic = 16\<rparr> =
     [(''DeviceID'', JString (replicate 8 68)), (''MessageID'', JString (replicate 4 77)),
      (''Payload'', JNull), (''path'', JString []),
      (''hops'', JNumber 1), (''duckType'', JNumber 2)]"
proof
  show "publish_log (snd (quackJson e p s)) =
     publish_log s @
       [(''iot-2/evt/'' @ toTopicString (topic_codes e) (topic (CdpPacket_of e p)) @ ''/fmt/json'',
         quack_doc (4 * JSON_OBJECT_SIZE e 4) (JSON_OBJECT_SIZE e 1) (CdpPacket_of e p),
         client_publish e (length (publish_log s)))]"
    by (simp add: quackJson_def quack_topic_def Let_def)
next
  show "quack_doc (4 * (4 * 16)) (1 * 16)
       \<lparr>sduid = replicate 8 68, dduid = replicate 8 80, muid = replicate 4 77, path = [],
        data = replicate 200 65, hopCount = 1, duckType = 2, topic = 16\<rparr> =
     [(''DeviceID'', JString (replicate 8 68)), (''MessageID'', JString (replicate 4 77)),
      (''Payload'', JNull), (''path'', JString []),
      (''hops'', JNumber 1), (''duckType'', JNumber 2)]"
    by (simp add: quack_doc_def set_string_def set_number_def getOrAddMember_def)
qed

section \<open>The drain pass\<close>

text \<open>
  C8. If the queue is not empty and every publish of the pass succeeds, one call of
  \<^verbatim>\<open>publishQueue\<close> leaves the queue empty, having published every queued packet
  once, in queue order; and when the client reports connected, \<^verbatim>\<open>setup_mqtt\<close> is that
  call.
\<close>
theorem publishQueue_all_ok:
  assumes "packetQueue s \<noteq> []"
    and "\<forall>i<length (packetQueue s). client_publish e (length (publish_log s) + i)"
  shows "packetQueue (publishQueue e s) = [] \<and>
         publish_log (publishQueue e s) =
           publish_log s @ map (\<lambda>p. publish_entry e p True) (packetQueue s) \<and>
         (client_connected i \<longrightarrow> setup_mqtt e i u s = publishQueue e s)"
proof -
  have "publishQueue e s =
     publishQueue e (s\<lparr>publish_log := publish_log s @
                          map (\<lambda>p. publish_entry e p True) (take (length (packetQueue s)) (packetQueue s)),
                       packetQueue := drop (length (packetQueue s)) (packetQueue s)\<rparr>)"
    using assms(2) by (intro publishQueue_prefix) simp_all
  then have "publishQueue e s =
     s\<lparr>publish_log := publish_log s @ map (\<lambda>p. publish_entry e p True) (packetQueue s),
       packetQueue := []\<rparr>"
    by (simp add: publishQueue_Nil)
  then show ?thesis using assms(1) by (simp add: setup_mqtt_def)
qed

theorem publishQueue_all_ok_witness:
  "packetQueue (duck_run (scripted [False, False, True, True]) [sample_frame 1, sample_frame 2] initial) = [sample_frame 1, sample_frame 2] \<and>
   client_connected (connected_pass 0 []) \<and>
   packetQueue (setup_mqtt (scripted [False, False, True, True]) (connected_pass 0 []) True
     (duck_run (scripted [False, False, True, True]) [sample_frame 1, sample_frame 2] initial)) = [] \<and>
   drop 2 (publish_log (publishQueue (scripted [False, False, True, True])
     (duck_run (scripted [False, False, True, True]) [sample_frame 1, sample_frame 2] initial))) =
     [publish_entry (scripted [False, False, True, True]) (sample_frame 1) True,
      publish_entry (scripted [False, False, True, True]) (sample_frame 2) True]"
proof -
  let ?e = "scripted [False, False, True, True]"
  let ?s = "duck_run ?e [sample_frame 1, sample_frame 2] initial"
  have q: "packetQueue ?s = [sample_frame 1, sample_frame 2]" and l: "length (publish_log ?s) = 2"
    by (simp_all add: duck_run_def handleDuckData_eq scripted_def initial_def)
  have ok: "\<forall>i<length (packetQueue ?s). client_publish ?e (length (publish_log ?s) + i)"
    unfolding q l by (simp add: scripted_def less_Suc_eq numeral_2_eq_2)
  have c: "client_connected (connected_pass 0 [])"
    by (simp add: connected_pass_def)
  from publishQueue_all_ok [of ?s ?e "connected_pass 0 []" True, OF _ ok] q l c
  show ?thesis by simp
qed

text \<open>
  C3. If, in a drain pass over the queue \<open>p1 .. pm\<close>, the publishes of
  \<open>p1 .. p(k-1)\<close> succeed and that of \<open>pk\<close> fails (\<open>1 \<le> k \<le> m\<close>), then on return
  \<open>p1 .. p(k-1)\<close> are gone, \<open>pk .. pm\<close> remain in their order, and the pass has made
  exactly \<open>k\<close> publish calls, those for \<open>p1 .. pk\<close>: none for a later packet.
\<close>
theorem publishQueue_stops_at_failure:
  assumes "1 \<le> k" and "k \<le> length (packetQueue s)"
    and "\<forall>i<k - 1. client_publish e (length (publish_log s) + i)"
    and "\<not> client_publish e (length (publish_log s) + (k - 1))"
  shows "packetQueue (publishQueue e s) = drop (k - 1) (packetQueue s) \<and>
         publish_log (publishQueue e s) =
           publish_log s @ map (\<lambda>p. publish_entry e p True) (take (k - 1) (packetQueue s))
             @ [publish_entry e (packetQueue s ! (k - 1)) False]"
proof -
  let ?s1 = "s\<lparr>publish_log := publish_log s @
                  map (\<lambda>p. publish_entry e p True) (take (k - 1) (packetQueue s)),
               packetQueue := drop (k - 1) (packetQueue s)\<rparr>"
  have pre: "publishQueue e s = publishQueue e ?s1"
    using assms(2,3) by (intro publishQueue_prefix) simp_all
  have "k - 1 < length (packetQueue s)" and "Suc (k - 1) = k"
    using assms(1,2) by simp_all
  then have "drop (k - 1) (packetQueue s) = (packetQueue s ! (k - 1)) # drop k (packetQueue s)"
    using Cons_nth_drop_Suc [of "k - 1" "packetQueue s"] by simp
  then have q1: "packetQueue ?s1 = (packetQueue s ! (k - 1)) # drop k (packetQueue s)"
    by simp
  have len: "length (publish_log ?s1) = length (publish_log s) + (k - 1)"
    using assms(2) by simp
  have "publishQueue e ?s1 =
          ?s1\<lparr>publish_log := publish_log ?s1 @ [publish_entry e (packetQueue s ! (k - 1)) False]\<rparr>"
    using q1 assms(4) unfolding len [symmetric] by (rule publishQueue_fail)
  with pre show ?thesis by simp
qed

theorem publishQueue_stops_at_failure_witness:
  "packetQueue (duck_run (scripted [False, False, False, True, False]) [sample_frame 1, sample_frame 2, sample_frame 3] initial)
     = [sample_frame 1, sample_frame 2, sample_frame 3] \<and>
   packetQueue (publishQueue (scripted [False, False, False, True, False])
     (duck_run (scripted [False, False, False, True, False]) [sample_frame 1, sample_frame 2, sample_frame 3] initial))
     = [sample_frame 2, sample_frame 3] \<and>
   drop 3 (publish_log (publishQueue (scripted [False, False, False, True, False])
     (duck_run (scripted [False, False, False, True, False]) [sample_frame 1, sample_frame 2, sample_frame 3] initial))) =
     [publish_entry (scripted [False, False, False, True, False]) (sample_frame 1) True,
      publish_entry (scripted [False, False, False, True, False]) (sample_frame 2) False]"
proof -
  let ?e = "scripted [False, False, False, True, False]"
  let ?s = "duck_run ?e [sample_frame 1, sample_frame 2, sample_frame 3] initial"
  have q: "packetQueue ?s = [sample_frame 1, sample_frame 2, sample_frame 3]" and l: "length (publish_log ?s) = 3"
    by (simp_all add: duck_run_def handleDuckData_eq scripted_def initial_def)
  have k: "(1::nat) \<le> 2" "2 \<le> length (packetQueue ?s)"
    unfolding q by simp_all
  have ok: "\<forall>i<2 - 1. client_publish ?e (length (publish_log ?s) + i)"
    unfolding l by (simp add: scripted_def)
  have bad: "\<not> client_publish ?e (length (publish_log ?s) + (2 - 1))"
    unfolding l by (simp add: scripted_def)
  from publishQueue_stops_at_failure [of 2 ?s ?e, OF k ok bad] q l
  show ?thesis by simp
qed

section \<open>What each function leaves alone\<close>

lemma handleDuckData_frame [simp]:
  "QUEUE_SIZE_MAX (handleDuckData e p s) = QUEUE_SIZE_MAX s \<and>
   retry (handleDuckData e p s) = retry s \<and>
   timer (handleDuckData e p s) = timer s \<and>
   use_auth_method (handleDuckData e p s) = use_auth_method s \<and>
   connect_log (handleDuckData e p s) = connect_log s \<and>
   wifi_reconnects (handleDuckData e p s) = wifi_reconnects s"
  by (simp add: handleDuckData_eq)

lemma duck_run_frame [simp]:
  "QUEUE_SIZE_MAX (duck_run e ps s) = QUEUE_SIZE_MAX s \<and>
   retry (duck_run e ps s) = retry s \<and>
   timer (duck_run e ps s) = timer s \<and>
   use_auth_method (duck_run e ps s) = use_auth_method s \<and>
   connect_log (duck_run e ps s) = connect_log s \<and>
   wifi_reconnects (duck_run e ps s) = wifi_reconnects s"
  unfolding duck_run_def by (induction ps arbitrary: s) simp_all

text \<open>A drain pass removes a prefix of the queue and extends the trace of publishes.\<close>
lemma publishQueue_shape:
  "\<exists>k l. publishQueue e s =
     s\<lparr>publish_log := publish_log s @ l, packetQueue := drop k (packetQueue s)\<rparr>"
proof (induction "packetQueue s" arbitrary: s)
  case Nil
  then have "publishQueue e s = s\<lparr>publish_log := publish_log s @ [], packetQueue := drop 0 (packetQueue s)\<rparr>"
    by (simp add: publishQueue_Nil)
  then show ?case by blast
next
  case (Cons p q)
  show ?case
  proof (cases "client_publish e (length (publish_log s))")
    case False
    with Cons.hyps(2) have "publishQueue e s =
        s\<lparr>publish_log := publish_log s @ [publish_entry e p False],
          packetQueue := drop 0 (packetQueue s)\<rparr>"
      by (simp add: publishQueue_fail [of s p q])
    then show ?thesis by blast
  next
    case True
    let ?s1 = "s\<lparr>publish_log := publish_log s @ [publish_entry e p True], packetQueue := q\<rparr>"
    have step: "publishQueue e s = publishQueue e ?s1"
      using Cons.hyps(2) True by (simp add: publishQueue_ok [of s p q])
    have "q = packetQueue ?s1" by simp
    from Cons.hyps(1) [OF this] obtain k l where
      "publishQueue e ?s1 =
         ?s1\<lparr>publish_log := publish_log ?s1 @ l, packetQueue := drop k (packetQueue ?s1)\<rparr>"
      by blast
    with step Cons.hyps(2) [symmetric] have "publishQueue e s =
        s\<lparr>publish_log := publish_log s @ (publish_entry e p True # l),
          packetQueue := drop (Suc k) (packetQueue s)\<rparr>"
      by simp
    then show ?thesis by blast
  qed
qed

lemma publishQueue_frame [simp]:
  "QUEUE_SIZE_MAX (publishQueue e s) = QUEUE_SIZE_MAX s \<and>
   retry (publishQueue e s) = retry s \<and>
   timer (publishQueue e s) = timer s \<and>
   use_auth_method (publishQueue e s) = use_auth_method s \<and>
   connect_log (publishQueue e s) = connect_log s \<and>
   wifi_reconnects (publishQueue e s) = wifi_reconnects s"
proof -
  obtain k l where "publishQueue e s =
      s\<lparr>publish_log := publish_log s @ l, packetQueue := drop k (packetQueue s)\<rparr>"
    using publishQueue_shape by blast
  then show ?thesis by simp
qed

lemma publishQueue_length: "length (packetQueue (publishQueue e s)) \<le> length (packetQueue s)"
proof -
  obtain k l where "publishQueue e s =
      s\<lparr>publish_log := publish_log s @ l, packetQueue := drop k (packetQueue s)\<rparr>"
    using publishQueue_shape by blast
  then show ?thesis by simp
qed

lemma timer_in_frame [simp]:
  "QUEUE_SIZE_MAX (timer_in t d s) = QUEUE_SIZE_MAX s \<and>
   packetQueue (timer_in t d s) = packetQueue s \<and>
   retry (timer_in t d s) = retry s \<and>
   use_auth_method (timer_in t d s) = use_auth_method s \<and>
   publish_log (timer_in t d s) = publish_log s \<and>
   connect_log (timer_in t d s) = connect_log s \<and>
   wifi_reconnects (timer_in t d s) = wifi_reconnects s"
  by (simp add: timer_in_def)

lemma run_tasks_frame [simp]:
  "QUEUE_SIZE_MAX (run_tasks t ts s) = QUEUE_SIZE_MAX s \<and>
   packetQueue (run_tasks t ts s) = packetQueue s \<and>
   timer (run_tasks t ts s) = timer s \<and>
   use_auth_method (run_tasks t ts s) = use_auth_method s \<and>
   publish_log (run_tasks t ts s) = publish_log s \<and>
   connect_log (run_tasks t ts s) = connect_log s \<and>
   wifi_reconnects (run_tasks t ts s) = wifi_reconnects s"
  by (induction t ts s rule: run_tasks.induct) (simp_all add: enableRetry_def)

lemma timer_tick_frame [simp]:
  "QUEUE_SIZE_MAX (timer_tick t s) = QUEUE_SIZE_MAX s \<and>
   packetQueue (timer_tick t s) = packetQueue s \<and>
   use_auth_method (timer_tick t s) = use_auth_method s \<and>
   publish_log (timer_tick t s) = publish_log s \<and>
   connect_log (timer_tick t s) = connect_log s \<and>
   wifi_reconnects (timer_tick t s) = wifi_reconnects s"
  by (simp add: timer_tick_def)

lemma setup_mqtt_QUEUE_SIZE_MAX [simp]:
  "QUEUE_SIZE_MAX (setup_mqtt e i u s) = QUEUE_SIZE_MAX s"
  by (simp add: setup_mqtt_def retry_mqtt_connection_def Let_def)

lemma setup_mqtt_length:
  "length (packetQueue (setup_mqtt e i u s)) \<le> length (packetQueue s)"
proof -
  have "length (packetQueue (publishQueue e (s\<lparr>connect_log := connect_log s @ [u]\<rparr>)))
          \<le> length (packetQueue s)"
    using publishQueue_length [of e "s\<lparr>connect_log := connect_log s @ [u]\<rparr>"] by simp
  then show ?thesis
    using publishQueue_length [of e s]
    by (simp add: setup_mqtt_def retry_mqtt_connection_def Let_def)
qed

lemma loop_QUEUE_SIZE_MAX [simp]: "QUEUE_SIZE_MAX (loop e i s) = QUEUE_SIZE_MAX s"
  by (simp add: loop_def Let_def)

lemma run_QUEUE_SIZE_MAX [simp]: "QUEUE_SIZE_MAX (run e ins s) = QUEUE_SIZE_MAX s"
  unfolding run_def by (induction ins arbitrary: s) simp_all

section \<open>Buffers the decoder rejects\<close>






section \<open>The bound the queue does keep\<close>

lemma handleDuckData_bound:
  "length (packetQueue s) \<le> QUEUE_SIZE_MAX s + 1 \<Longrightarrow>
   length (packetQueue (handleDuckData e p s)) \<le> QUEUE_SIZE_MAX s + 1"
  by (auto simp: handleDuckData_eq)

lemma duck_run_bound:
  "length (packetQueue s) \<le> QUEUE_SIZE_MAX s + 1 \<Longrightarrow>
   length (packetQueue (duck_run e ps s)) \<le> QUEUE_SIZE_MAX s + 1"
proof (induction ps arbitrary: s)
  case Nil
  then show ?case by (simp add: duck_run_def)
next
  case (Cons p ps)
  have "length (packetQueue (duck_run e ps (handleDuckData e p s)))
          \<le> QUEUE_SIZE_MAX (handleDuckData e p s) + 1"
    using handleDuckData_bound [OF Cons.prems] by (intro Cons.IH) simp
  then show ?case by (simp add: duck_run_def)
qed

lemma loop_bound:
  assumes "length (packetQueue s) \<le> QUEUE_SIZE_MAX s + 1"
  shows "length (packetQueue (loop e i s)) \<le> QUEUE_SIZE_MAX s + 1"
proof -
  define s1 where "s1 =
    (if \<not> wifi_connected1 i \<and> retry s then
       (let s' = s\<lparr>wifi_reconnects := wifi_reconnects s + 1\<rparr> in
        if \<not> reconnect_ok i then timer_in (t_arm i) 5000 (s'\<lparr>retry := False\<rparr>) else s')
     else s)"
  define s2 where "s2 =
    (if wifi_connected2 i \<and> retry s1 then setup_mqtt e i (use_auth_method s1) s1 else s1)"
  have 1: "packetQueue s1 = packetQueue s" "QUEUE_SIZE_MAX s1 = QUEUE_SIZE_MAX s"
    by (simp_all add: s1_def Let_def)
  have "length (packetQueue s2) \<le> length (packetQueue s1)"
    using setup_mqtt_length [of e i "use_auth_method s1" s1] by (simp add: s2_def)
  moreover have "QUEUE_SIZE_MAX s2 = QUEUE_SIZE_MAX s"
    using 1 by (simp add: s2_def)
  ultimately have "length (packetQueue s2) \<le> QUEUE_SIZE_MAX s2 + 1"
    using assms 1 by simp
  then have "length (packetQueue (duck_run e (received i) s2)) \<le> QUEUE_SIZE_MAX s2 + 1"
    by (rule duck_run_bound)
  moreover have "loop e i s = timer_tick (t_tick i) (duck_run e (received i) s2)"
    by (simp add: loop_def s1_def s2_def Let_def)
  ultimately show ?thesis using \<open>QUEUE_SIZE_MAX s2 = QUEUE_SIZE_MAX s\<close> by simp
qed

lemma run_bound:
  "length (packetQueue s) \<le> QUEUE_SIZE_MAX s + 1 \<Longrightarrow>
   length (packetQueue (run e ins s)) \<le> QUEUE_SIZE_MAX s + 1"
proof (induction ins arbitrary: s)
  case Nil
  then show ?case by (simp add: run_def)
next
  case (Cons i ins)
  have "length (packetQueue (run e ins (loop e i s))) \<le> QUEUE_SIZE_MAX (loop e i s) + 1"
    using loop_bound [OF Cons.prems] by (intro Cons.IH) simp
  then show ?case by (simp add: run_def)
qed

text \<open>
  C10. In every state the sketch reaches from start-up, whatever the capacity \<open>n\<close>, the
  inputs of the passes and the outcomes of the publishes, the queue holds at most
  \<open>n + 1\<close> packets (6 for the default 5); and when the callback takes its overflow
  branch (the publish failed and the size exceeds \<open>QUEUE_SIZE_MAX\<close>), pop-then-push
  leaves the length as it was.
\<close>
theorem packetQueue_bounded:
  "length (packetQueue (run e ins (initial\<lparr>QUEUE_SIZE_MAX := n\<rparr>))) \<le> n + 1 \<and>
   length (packetQueue (run e ins initial)) \<le> 6 \<and>
   (QUEUE_SIZE_MAX s < length (packetQueue s) \<and> \<not> client_publish e (length (publish_log s)) \<longrightarrow>
      length (packetQueue (handleDuckData e p s)) = length (packetQueue s))"
proof -
  have "length (packetQueue (run e ins (initial\<lparr>QUEUE_SIZE_MAX := n\<rparr>))) \<le> n + 1"
    using run_bound [of "initial\<lparr>QUEUE_SIZE_MAX := n\<rparr>" e ins] by (simp add: initial_def)
  moreover have "length (packetQueue (run e ins initial)) \<le> 6"
    using run_bound [of initial e ins] by (simp add: initial_def)
  moreover have "QUEUE_SIZE_MAX s < length (packetQueue s) \<Longrightarrow>
      \<not> client_publish e (length (publish_log s)) \<Longrightarrow>
      length (packetQueue (handleDuckData e p s)) = length (packetQueue s)"
    by (cases "packetQueue s") (simp_all add: handleDuckData_eq)
  ultimately show ?thesis by blast
qed

theorem packetQueue_bounded_witness:
  "QUEUE_SIZE_MAX (duck_run (scripted []) [sample_frame 1, sample_frame 2, sample_frame 3, sample_frame 4, sample_frame 5, sample_frame 6] initial)
     < length (packetQueue (duck_run (scripted []) [sample_frame 1, sample_frame 2, sample_frame 3, sample_frame 4, sample_frame 5, sample_frame 6] initial)) \<and>
   \<not> client_publish (scripted [])
       (length (publish_log (duck_run (scripted []) [sample_frame 1, sample_frame 2, sample_frame 3, sample_frame 4, sample_frame 5, sample_frame 6] initial))) \<and>
   length (packetQueue (handleDuckData (scripted []) (sample_frame 7)
     (duck_run (scripted []) [sample_frame 1, sample_frame 2, sample_frame 3, sample_frame 4, sample_frame 5, sample_frame 6] initial))) = 6"
proof -
  let ?s = "duck_run (scripted []) [sample_frame 1, sample_frame 2, sample_frame 3, sample_frame 4, sample_frame 5, sample_frame 6] initial"
  have q: "length (packetQueue ?s) = 6" and n: "QUEUE_SIZE_MAX ?s = 5"
    by (simp_all add: duck_run_def handleDuckData_eq scripted_def initial_def)
  have f: "\<not> client_publish (scripted []) (length (publish_log ?s))"
    by (simp add: scripted_def)
  from packetQueue_bounded [of "scripted []" "[]" 5 ?s "sample_frame 7"] q n f
  show ?thesis by simp
qed

section \<open>The retry flag and the timer\<close>

lemma timer_tick_idle: "timer s = [] \<Longrightarrow> timer_tick t s = s"
  by (simp add: timer_tick_def)

lemma timer_tick_single:
  "timer s = [(st, d)] \<Longrightarrow>
   timer_tick t s = (if d \<le> t - st then s\<lparr>retry := True, timer := []\<rparr> else s)"
  by (simp add: timer_tick_def enableRetry_def)

lemma loop_waiting:
  "\<not> retry s \<Longrightarrow> loop e i s = timer_tick (t_tick i) (duck_run e (received i) s)"
  by (simp add: loop_def)

lemma loop_wifi_fail:
  "retry s \<Longrightarrow> \<not> wifi_connected1 i \<Longrightarrow> \<not> reconnect_ok i \<Longrightarrow>
   loop e i s = timer_tick (t_tick i) (duck_run e (received i)
     (timer_in (t_arm i) 5000 (s\<lparr>wifi_reconnects := wifi_reconnects s + 1, retry := False\<rparr>)))"
  by (simp add: loop_def Let_def)

lemma loop_mqtt:
  "retry s \<Longrightarrow> wifi_connected1 i \<or> reconnect_ok i \<Longrightarrow> wifi_connected2 i \<Longrightarrow>
   loop e i s = timer_tick (t_tick i) (duck_run e (received i)
     (setup_mqtt e i (use_auth_method s)
        (if wifi_connected1 i then s else s\<lparr>wifi_reconnects := wifi_reconnects s + 1\<rparr>)))"
  by (auto simp: loop_def Let_def)

lemma loop_no_mqtt:
  "retry s \<Longrightarrow> wifi_connected1 i \<or> reconnect_ok i \<Longrightarrow> \<not> wifi_connected2 i \<Longrightarrow>
   loop e i s = timer_tick (t_tick i) (duck_run e (received i)
        (if wifi_connected1 i then s else s\<lparr>wifi_reconnects := wifi_reconnects s + 1\<rparr>))"
  by (auto simp: loop_def Let_def)

lemma setup_mqtt_connected:
  "client_connected i \<Longrightarrow>
   retry (setup_mqtt e i u s) = retry s \<and> timer (setup_mqtt e i u s) = timer s \<and>
   connect_log (setup_mqtt e i u s) = connect_log s \<and>
   wifi_reconnects (setup_mqtt e i u s) = wifi_reconnects s"
  by (simp add: setup_mqtt_def)

lemma setup_mqtt_connect_ok:
  "\<not> client_connected i \<Longrightarrow> connect_ok i \<Longrightarrow>
   retry (setup_mqtt e i u s) = retry s \<and> timer (setup_mqtt e i u s) = timer s \<and>
   connect_log (setup_mqtt e i u s) = connect_log s @ [u] \<and>
   wifi_reconnects (setup_mqtt e i u s) = wifi_reconnects s"
  by (simp add: setup_mqtt_def Let_def)

lemma setup_mqtt_connect_fail:
  "\<not> client_connected i \<Longrightarrow> \<not> connect_ok i \<Longrightarrow> timer s = [] \<Longrightarrow>
   \<not> retry (setup_mqtt e i u s) \<and> timer (setup_mqtt e i u s) = [(t_arm i, 1000)] \<and>
   connect_log (setup_mqtt e i u s) = connect_log s @ [u] \<and>
   wifi_reconnects (setup_mqtt e i u s) = wifi_reconnects s"
  by (simp add: setup_mqtt_def Let_def retry_mqtt_connection_def timer_in_def)

lemma timer_tick_inv: "timer_inv s \<Longrightarrow> timer_inv (timer_tick t s)"
proof (cases "retry s")
  case True
  assume "timer_inv s"
  with True show ?thesis by (simp add: timer_inv_def timer_tick_idle)
next
  case False
  assume "timer_inv s"
  with False obtain st d where "timer s = [(st, d)]"
    by (cases "timer s") (auto simp: timer_inv_def)
  with False show ?thesis by (simp add: timer_inv_def timer_tick_single)
qed

lemma duck_run_inv: "timer_inv (duck_run e ps s) = timer_inv s"
  by (simp add: timer_inv_def)

lemma loop_inv:
  assumes "timer_inv s"
  shows "timer_inv (loop e i s)"
proof (cases "retry s")
  case False
  with assms show ?thesis by (simp add: loop_waiting timer_tick_inv duck_run_inv)
next
  case True
  with assms have t: "timer s = []" by (simp add: timer_inv_def)
  show ?thesis
  proof (cases "wifi_connected1 i \<or> reconnect_ok i")
    case False
    with True have "loop e i s = timer_tick (t_tick i) (duck_run e (received i)
       (timer_in (t_arm i) 5000 (s\<lparr>wifi_reconnects := wifi_reconnects s + 1, retry := False\<rparr>)))"
      by (simp add: loop_wifi_fail)
    moreover have "timer_inv (timer_in (t_arm i) 5000
        (s\<lparr>wifi_reconnects := wifi_reconnects s + 1, retry := False\<rparr>))"
      using t by (simp add: timer_inv_def timer_in_def)
    ultimately show ?thesis by (simp add: timer_tick_inv duck_run_inv)
  next
    case up: True
    let ?s1 = "if wifi_connected1 i then s else s\<lparr>wifi_reconnects := wifi_reconnects s + 1\<rparr>"
    have s1: "timer_inv ?s1" "timer ?s1 = []" "retry ?s1"
      using True t by (simp_all add: timer_inv_def)
    show ?thesis
    proof (cases "wifi_connected2 i")
      case False
      with True up have "loop e i s = timer_tick (t_tick i) (duck_run e (received i) ?s1)"
        by (simp add: loop_no_mqtt)
      with s1(1) show ?thesis by (simp add: timer_tick_inv duck_run_inv)
    next
      case w2: True
      have "timer_inv (setup_mqtt e i (use_auth_method s) ?s1)"
      proof (cases "client_connected i")
        case True
        then show ?thesis using s1 setup_mqtt_connected [of i e "use_auth_method s" ?s1]
          by (simp add: timer_inv_def)
      next
        case nc: False
        show ?thesis
        proof (cases "connect_ok i")
          case True
          then show ?thesis using nc s1 setup_mqtt_connect_ok [of i e "use_auth_method s" ?s1]
            by (simp add: timer_inv_def)
        next
          case False
          then show ?thesis using nc s1 setup_mqtt_connect_fail [of i ?s1 e "use_auth_method s"]
            by (simp add: timer_inv_def)
        qed
      qed
      moreover have "loop e i s = timer_tick (t_tick i) (duck_run e (received i)
          (setup_mqtt e i (use_auth_method s) ?s1))"
        using True up w2 by (rule loop_mqtt)
      ultimately show ?thesis by (simp add: timer_tick_inv duck_run_inv)
    qed
  qed
qed

lemma run_inv: "timer_inv s \<Longrightarrow> timer_inv (run e ins s)"
  unfolding run_def by (induction ins arbitrary: s) (simp_all add: loop_inv)

lemma run_initial_inv: "timer_inv (run e ins initial)"
  by (rule run_inv) (simp add: timer_inv_def initial_def)


lemma run_append: "run e (xs @ ys) s = run e ys (run e xs s)"
  by (simp add: run_def)

lemma run_Cons: "run e (i # ins) s = run e ins (loop e i s)"
  by (simp add: run_def)

lemma wait_pass:
  assumes "\<not> retry s" and "timer s = [(st, d)]" and "t_tick i - st < d"
  shows "\<not> retry (loop e i s) \<and> timer (loop e i s) = [(st, d)] \<and>
         connect_log (loop e i s) = connect_log s \<and>
         wifi_reconnects (loop e i s) = wifi_reconnects s"
proof -
  have "timer (duck_run e (received i) s) = [(st, d)]" using assms(2) by simp
  then have "timer_tick (t_tick i) (duck_run e (received i) s) = duck_run e (received i) s"
    using assms(3) by (simp add: timer_tick_single)
  then show ?thesis using assms(1,2) by (simp add: loop_waiting)
qed

lemma wait_run:
  "\<not> retry s \<Longrightarrow> timer s = [(st, d)] \<Longrightarrow> \<forall>i\<in>set ins. t_tick i - st < d \<Longrightarrow>
   \<not> retry (run e ins s) \<and> timer (run e ins s) = [(st, d)] \<and>
   connect_log (run e ins s) = connect_log s \<and>
   wifi_reconnects (run e ins s) = wifi_reconnects s"
proof (induction ins arbitrary: s)
  case Nil
  then show ?case by (simp add: run_def)
next
  case (Cons i ins)
  have 1: "\<not> retry (loop e i s) \<and> timer (loop e i s) = [(st, d)] \<and>
         connect_log (loop e i s) = connect_log s \<and>
         wifi_reconnects (loop e i s) = wifi_reconnects s"
    using Cons.prems by (intro wait_pass) simp_all
  then have "\<not> retry (run e ins (loop e i s)) \<and> timer (run e ins (loop e i s)) = [(st, d)] \<and>
   connect_log (run e ins (loop e i s)) = connect_log (loop e i s) \<and>
   wifi_reconnects (run e ins (loop e i s)) = wifi_reconnects (loop e i s)"
    using Cons.prems(3) by (intro Cons.IH) simp_all
  with 1 show ?case by (simp add: run_Cons)
qed

lemma fire_pass:
  assumes "\<not> retry s" and "timer s = [(st, d)]" and "d \<le> t_tick i - st"
  shows "retry (loop e i s) \<and> timer (loop e i s) = [] \<and>
         connect_log (loop e i s) = connect_log s \<and>
         wifi_reconnects (loop e i s) = wifi_reconnects s"
proof -
  have "timer (duck_run e (received i) s) = [(st, d)]" using assms(2) by simp
  then have "timer_tick (t_tick i) (duck_run e (received i) s) =
      (duck_run e (received i) s)\<lparr>retry := True, timer := []\<rparr>"
    using assms(3) by (simp add: timer_tick_single)
  then show ?thesis using assms(1) by (simp add: loop_waiting)
qed

lemma mqtt_fail_pass:
  assumes "retry s" and "timer s = []"
    and "wifi_connected1 i \<or> reconnect_ok i" and "wifi_connected2 i"
    and "\<not> client_connected i" and "\<not> connect_ok i" and "t_tick i - t_arm i < 1000"
  shows "\<not> retry (loop e i s) \<and> timer (loop e i s) = [(t_arm i, 1000)] \<and>
         connect_log (loop e i s) = connect_log s @ [use_auth_method s]"
proof -
  let ?s1 = "if wifi_connected1 i then s else s\<lparr>wifi_reconnects := wifi_reconnects s + 1\<rparr>"
  let ?s2 = "setup_mqtt e i (use_auth_method s) ?s1"
  have "timer ?s1 = []" using assms(2) by simp
  with assms(5,6) have 2: "\<not> retry ?s2 \<and> timer ?s2 = [(t_arm i, 1000)] \<and>
      connect_log ?s2 = connect_log ?s1 @ [use_auth_method s]"
    using setup_mqtt_connect_fail [of i ?s1 e "use_auth_method s"] by blast
  then have "timer (duck_run e (received i) ?s2) = [(t_arm i, 1000)]" by simp
  then have "timer_tick (t_tick i) (duck_run e (received i) ?s2) = duck_run e (received i) ?s2"
    using assms(7) by (simp add: timer_tick_single)
  moreover have "loop e i s = timer_tick (t_tick i) (duck_run e (received i) ?s2)"
    using assms(1,3,4) by (rule loop_mqtt)
  ultimately show ?thesis using 2 by simp
qed

lemma wifi_fail_pass:
  assumes "retry s" and "timer s = []"
    and "\<not> wifi_connected1 i" and "\<not> reconnect_ok i" and "t_tick i - t_arm i < 5000"
  shows "\<not> retry (loop e i s) \<and> timer (loop e i s) = [(t_arm i, 5000)] \<and>
         connect_log (loop e i s) = connect_log s \<and>
         wifi_reconnects (loop e i s) = wifi_reconnects s + 1"
proof -
  let ?s1 = "timer_in (t_arm i) 5000 (s\<lparr>wifi_reconnects := wifi_reconnects s + 1, retry := False\<rparr>)"
  have 1: "timer ?s1 = [(t_arm i, 5000)]" using assms(2) by (simp add: timer_in_def)
  then have "timer (duck_run e (received i) ?s1) = [(t_arm i, 5000)]" by simp
  then have "timer_tick (t_tick i) (duck_run e (received i) ?s1) = duck_run e (received i) ?s1"
    using assms(5) by (simp add: timer_tick_single)
  moreover have "loop e i s = timer_tick (t_tick i) (duck_run e (received i) ?s1)"
    using assms(1,3,4) by (rule loop_wifi_fail)
  ultimately show ?thesis using 1 by simp
qed

lemma ready_pass_connects:
  assumes "retry s"
  shows "length (connect_log (loop e k s)) = length (connect_log s) +
           (if (wifi_connected1 k \<or> reconnect_ok k) \<and> wifi_connected2 k \<and> \<not> client_connected k
            then 1 else 0)"
proof (cases "wifi_connected1 k \<or> reconnect_ok k")
  case False
  with assms show ?thesis by (simp add: loop_wifi_fail)
next
  case up: True
  show ?thesis
  proof (cases "wifi_connected2 k")
    case False
    with assms up show ?thesis by (simp add: loop_no_mqtt)
  next
    case True
    let ?s1 = "if wifi_connected1 k then s else s\<lparr>wifi_reconnects := wifi_reconnects s + 1\<rparr>"
    have "length (connect_log (setup_mqtt e k (use_auth_method s) ?s1)) =
            length (connect_log s) + (if client_connected k then 0 else 1)"
      by (simp add: setup_mqtt_def Let_def retry_mqtt_connection_def)
    with assms up True show ?thesis by (simp add: loop_mqtt)
  qed
qed

lemma mqtt_fail_pass_fired:
  assumes "retry s" and "timer s = []"
    and "wifi_connected1 i \<or> reconnect_ok i" and "wifi_connected2 i"
    and "\<not> client_connected i" and "\<not> connect_ok i" and "1000 \<le> t_tick i - t_arm i"
  shows "retry (loop e i s) \<and> timer (loop e i s) = [] \<and>
         connect_log (loop e i s) = connect_log s @ [use_auth_method s]"
proof -
  let ?s1 = "if wifi_connected1 i then s else s\<lparr>wifi_reconnects := wifi_reconnects s + 1\<rparr>"
  let ?s2 = "setup_mqtt e i (use_auth_method s) ?s1"
  have "timer ?s1 = []" using assms(2) by simp
  with assms(5,6) have 2: "\<not> retry ?s2 \<and> timer ?s2 = [(t_arm i, 1000)] \<and>
      connect_log ?s2 = connect_log ?s1 @ [use_auth_method s]"
    using setup_mqtt_connect_fail [of i ?s1 e "use_auth_method s"] by blast
  then have "timer (duck_run e (received i) ?s2) = [(t_arm i, 1000)]" by simp
  then have "timer_tick (t_tick i) (duck_run e (received i) ?s2) =
      (duck_run e (received i) ?s2)\<lparr>retry := True, timer := []\<rparr>"
    using assms(7) by (simp add: timer_tick_single)
  moreover have "loop e i s = timer_tick (t_tick i) (duck_run e (received i) ?s2)"
    using assms(1,3,4) by (rule loop_mqtt)
  ultimately show ?thesis using 2 by simp
qed

text \<open>
  C5, amended. Take any state reached from start-up in which \<open>retry\<close> is set, and a pass
  \<open>i0\<close> whose MQTT connect attempt fails: the pass logs that one attempt, clears
  \<open>retry\<close> and arms a one-shot task of 1000 ms. If the \<^verbatim>\<open>timer.tick()\<close> of that
  pass sees less than 1000 ms since the arming, then in every later pass that also sees
  less, \<open>retry\<close> stays cleared and no connect attempt is made; the pass \<open>j\<close> that
  sees the delay elapsed makes none either and sets \<open>retry\<close> again. If the
  \<^verbatim>\<open>timer.tick()\<close> of the arming pass itself already sees the delay elapsed, that
  pass sets \<open>retry\<close> again. Either way, the pass after the one in which the delay
  elapsed makes exactly one connect attempt when the local network is up (or its
  reconnect succeeds) and the client is not connected, and none otherwise.
\<close>
theorem mqtt_backoff:
  assumes "s = run e pre initial" and "retry s"
    and "wifi_connected1 i0 \<or> reconnect_ok i0" and "wifi_connected2 i0"
    and "\<not> client_connected i0" and "\<not> connect_ok i0"
  shows "connect_log (loop e i0 s) = connect_log s @ [use_auth_method s] \<and>
         (t_tick i0 - t_arm i0 < 1000 \<and> (\<forall>i\<in>set ins. t_tick i - t_arm i0 < 1000) \<and>
            1000 \<le> t_tick j - t_arm i0 \<longrightarrow>
            timer (loop e i0 s) = [(t_arm i0, 1000)] \<and>
            \<not> retry (run e ins (loop e i0 s)) \<and>
            connect_log (run e ins (loop e i0 s)) = connect_log (loop e i0 s) \<and>
            retry (run e (ins @ [j]) (loop e i0 s)) \<and>
            connect_log (run e (ins @ [j]) (loop e i0 s)) = connect_log (loop e i0 s) \<and>
            length (connect_log (loop e k (run e (ins @ [j]) (loop e i0 s)))) =
              length (connect_log (loop e i0 s)) +
                (if (wifi_connected1 k \<or> reconnect_ok k) \<and> wifi_connected2 k \<and>
                    \<not> client_connected k then 1 else 0)) \<and>
         (1000 \<le> t_tick i0 - t_arm i0 \<longrightarrow>
            retry (loop e i0 s) \<and>
            length (connect_log (loop e k (loop e i0 s))) =
              length (connect_log (loop e i0 s)) +
                (if (wifi_connected1 k \<or> reconnect_ok k) \<and> wifi_connected2 k \<and>
                    \<not> client_connected k then 1 else 0))"
proof -
  have "timer_inv s" unfolding assms(1) by (rule run_initial_inv)
  with assms(2) have t: "timer s = []" by (simp add: timer_inv_def)
  let ?s1 = "loop e i0 s"
  let ?one = "\<lambda>k. if (wifi_connected1 k \<or> reconnect_ok k) \<and> wifi_connected2 k \<and>
                    \<not> client_connected k then 1 else (0::nat)"
  have A: "connect_log ?s1 = connect_log s @ [use_auth_method s]"
  proof (cases "t_tick i0 - t_arm i0 < 1000")
    case True
    with assms(2) t assms(3-6) show ?thesis using mqtt_fail_pass [of s i0 e] by blast
  next
    case False
    then have "1000 \<le> t_tick i0 - t_arm i0" by simp
    with assms(2) t assms(3-6) show ?thesis using mqtt_fail_pass_fired [of s i0 e] by blast
  qed
  have B: "timer ?s1 = [(t_arm i0, 1000)] \<and>
            \<not> retry (run e ins ?s1) \<and>
            connect_log (run e ins ?s1) = connect_log ?s1 \<and>
            retry (run e (ins @ [j]) ?s1) \<and>
            connect_log (run e (ins @ [j]) ?s1) = connect_log ?s1 \<and>
            length (connect_log (loop e k (run e (ins @ [j]) ?s1))) =
              length (connect_log ?s1) + ?one k"
    if w0: "t_tick i0 - t_arm i0 < 1000" and w: "\<forall>i\<in>set ins. t_tick i - t_arm i0 < 1000"
      and f: "1000 \<le> t_tick j - t_arm i0"
  proof -
    have 1: "\<not> retry ?s1 \<and> timer ?s1 = [(t_arm i0, 1000)] \<and>
           connect_log ?s1 = connect_log s @ [use_auth_method s]"
      using assms(2) t assms(3-6) w0 by (rule mqtt_fail_pass)
    let ?s2 = "run e ins ?s1"
    have 2: "\<not> retry ?s2 \<and> timer ?s2 = [(t_arm i0, 1000)] \<and>
           connect_log ?s2 = connect_log ?s1 \<and> wifi_reconnects ?s2 = wifi_reconnects ?s1"
      using 1 w by (intro wait_run) simp_all
    let ?s3 = "loop e j ?s2"
    have 3: "retry ?s3 \<and> timer ?s3 = [] \<and> connect_log ?s3 = connect_log ?s2 \<and>
           wifi_reconnects ?s3 = wifi_reconnects ?s2"
      using 2 f fire_pass [of ?s2 "t_arm i0" 1000 j e] by blast
    have r: "run e (ins @ [j]) ?s1 = ?s3" by (simp add: run_def)
    have 4: "length (connect_log (loop e k ?s3)) = length (connect_log ?s3) + ?one k"
      using 3 by (intro ready_pass_connects) simp
    show ?thesis unfolding r using 1 2 3 4 by simp
  qed
  have C: "retry ?s1 \<and> length (connect_log (loop e k ?s1)) = length (connect_log ?s1) + ?one k"
    if f0: "1000 \<le> t_tick i0 - t_arm i0"
  proof -
    have 1: "retry ?s1 \<and> timer ?s1 = [] \<and>
           connect_log ?s1 = connect_log s @ [use_auth_method s]"
      using assms(2) t assms(3-6) f0 by (rule mqtt_fail_pass_fired)
    then have "length (connect_log (loop e k ?s1)) = length (connect_log ?s1) + ?one k"
      by (intro ready_pass_connects) simp
    with 1 show ?thesis by simp
  qed
  from A B C show ?thesis by blast
qed


lemmas sketch_defs = run_def loop_def duck_run_def handleDuckData_eq Let_def
  timer_tick_def timer_in_def enableRetry_def retry_mqtt_connection_def setup_mqtt_def
  scripted_def wifi_down_def broker_down_def broker_up_def initial_def

theorem mqtt_backoff_witness:
  "retry (run (scripted []) [] initial) \<and>
   t_tick (broker_up 999 []) - t_arm (broker_down 0 []) < 1000 \<and>
   1000 \<le> t_tick (broker_up 1000 []) - t_arm (broker_down 0 []) \<and>
   connect_log (run (scripted []) [broker_up 100 [], broker_up 999 []]
       (loop (scripted []) (broker_down 0 []) (run (scripted []) [] initial))) = [True] \<and>
   connect_log (run (scripted []) ([broker_up 100 [], broker_up 999 []] @ [broker_up 1000 []])
       (loop (scripted []) (broker_down 0 []) (run (scripted []) [] initial))) = [True] \<and>
   length (connect_log (loop (scripted []) (broker_up 1001 [])
     (run (scripted []) ([broker_up 100 [], broker_up 999 []] @ [broker_up 1000 []])
       (loop (scripted []) (broker_down 0 []) (run (scripted []) [] initial))))) = 2 \<and>
   1000 \<le> t_tick ((broker_down 0 [])\<lparr>t_tick := 1500\<rparr>)
            - t_arm ((broker_down 0 [])\<lparr>t_tick := 1500\<rparr>) \<and>
   retry (loop (scripted []) ((broker_down 0 [])\<lparr>t_tick := 1500\<rparr>)
       (run (scripted []) [] initial)) \<and>
   length (connect_log (loop (scripted []) (broker_up 1600 [])
     (loop (scripted []) ((broker_down 0 [])\<lparr>t_tick := 1500\<rparr>)
       (run (scripted []) [] initial)))) = 2"
proof -
  let ?e = "scripted []"
  let ?s = "run ?e [] initial"
  let ?i0 = "broker_down 0 []"
  let ?ins = "[broker_up 100 [], broker_up 999 []]"
  let ?j = "broker_up 1000 []"
  let ?k = "broker_up 1001 []"
  let ?slow = "(broker_down 0 [])\<lparr>t_tick := 1500\<rparr>"
  let ?k2 = "broker_up 1600 []"
  have r: "retry ?s" and c: "connect_log ?s = []" and u: "use_auth_method ?s"
    by (simp_all add: run_def initial_def)
  have h: "wifi_connected1 ?i0 \<or> reconnect_ok ?i0" "wifi_connected2 ?i0"
      "\<not> client_connected ?i0" "\<not> connect_ok ?i0"
    by (simp_all add: broker_down_def)
  have w0: "t_tick ?i0 - t_arm ?i0 < 1000"
    by (simp add: broker_down_def)
  have w: "\<forall>i\<in>set ?ins. t_tick i - t_arm ?i0 < 1000"
    by (simp add: broker_down_def broker_up_def)
  have f: "1000 \<le> t_tick ?j - t_arm ?i0"
    by (simp add: broker_down_def broker_up_def)
  have k: "(wifi_connected1 ?k \<or> reconnect_ok ?k) \<and> wifi_connected2 ?k \<and> \<not> client_connected ?k"
    by (simp add: broker_up_def)
  have hs: "wifi_connected1 ?slow \<or> reconnect_ok ?slow" "wifi_connected2 ?slow"
      "\<not> client_connected ?slow" "\<not> connect_ok ?slow"
    by (simp_all add: broker_down_def)
  have fs: "1000 \<le> t_tick ?slow - t_arm ?slow"
    by (simp add: broker_down_def)
  have k2: "(wifi_connected1 ?k2 \<or> reconnect_ok ?k2) \<and> wifi_connected2 ?k2 \<and>
      \<not> client_connected ?k2"
    by (simp add: broker_up_def)
  have 1: "connect_log (run ?e ?ins (loop ?e ?i0 ?s)) = [True] \<and>
      connect_log (run ?e (?ins @ [?j]) (loop ?e ?i0 ?s)) = [True] \<and>
      length (connect_log (loop ?e ?k (run ?e (?ins @ [?j]) (loop ?e ?i0 ?s)))) = 2"
    using mqtt_backoff [of ?s ?e "[]" ?i0 ?ins ?j ?k, OF refl r h] c u k w0 w f by simp
  have 2: "retry (loop ?e ?slow ?s) \<and>
      length (connect_log (loop ?e ?k2 (loop ?e ?slow ?s))) = 2"
    using mqtt_backoff [of ?s ?e "[]" ?slow ?ins ?j ?k2, OF refl r hs] c u k2 fs by simp
  from 1 2 r w f fs show ?thesis by simp
qed

text \<open>
  C5, as the claim states it, fails in its last part: the connect fails in the pass at 0,
  the delay has elapsed and \<open>retry\<close> is set again after the pass at 1000, but the local
  network is down in the pass at 1001, and five seconds later there still has been no
  second connect attempt.
\<close>
theorem mqtt_no_attempt_after_delay:
  "retry (run (scripted []) [broker_down 0 [], broker_up 1000 []] initial) \<and>
   connect_log (run (scripted []) [broker_down 0 [], broker_up 1000 []] initial) = [True] \<and>
   connect_log (run (scripted [])
     [broker_down 0 [], broker_up 1000 [], wifi_down 1001 [], broker_up 2000 [],
      broker_up 6000 []] initial) = [True]"
  by (simp add: sketch_defs)

section \<open>One flag for both links\<close>

text \<open>
  C6, amended. The two backoffs are one mechanism, the flag \<open>retry\<close> and its timer. With
  \<open>retry\<close> set and no task pending, a failed local reconnect clears \<open>retry\<close>, arms
  a task of 5000 ms and makes no MQTT connect attempt in that pass; a failed MQTT connect
  clears \<open>retry\<close> and arms a task of 1000 ms. While \<open>retry\<close> is cleared, whichever
  failure cleared it, a pass makes neither a local reconnect attempt nor an MQTT connect
  attempt nor a drain: it only serves the callback and ticks the timer. When the pending
  task's delay has elapsed the pass sets \<open>retry\<close> again, for both links.
\<close>
theorem shared_retry_flag:
  "(retry s \<and> timer s = [] \<and> \<not> wifi_connected1 i \<and> \<not> reconnect_ok i \<and>
      t_tick i - t_arm i < 5000 \<longrightarrow>
      \<not> retry (loop e i s) \<and> timer (loop e i s) = [(t_arm i, 5000)] \<and>
      connect_log (loop e i s) = connect_log s) \<and>
   (retry s \<and> timer s = [] \<and> (wifi_connected1 i \<or> reconnect_ok i) \<and> wifi_connected2 i \<and>
      \<not> client_connected i \<and> \<not> connect_ok i \<and> t_tick i - t_arm i < 1000 \<longrightarrow>
      \<not> retry (loop e i s) \<and> timer (loop e i s) = [(t_arm i, 1000)]) \<and>
   (\<not> retry s \<longrightarrow>
      wifi_reconnects (loop e i s) = wifi_reconnects s \<and>
      connect_log (loop e i s) = connect_log s \<and>
      loop e i s = timer_tick (t_tick i) (duck_run e (received i) s)) \<and>
   (\<not> retry s \<and> timer s = [(st, d)] \<and> d \<le> t_tick i - st \<longrightarrow>
      retry (loop e i s) \<and> timer (loop e i s) = [])"
proof (intro conjI impI)
  assume a: "retry s \<and> timer s = [] \<and> \<not> wifi_connected1 i \<and> \<not> reconnect_ok i \<and>
      t_tick i - t_arm i < 5000"
  then have "\<not> retry (loop e i s) \<and> timer (loop e i s) = [(t_arm i, 5000)] \<and>
         connect_log (loop e i s) = connect_log s \<and>
         wifi_reconnects (loop e i s) = wifi_reconnects s + 1"
    by (intro wifi_fail_pass) simp_all
  then show "\<not> retry (loop e i s)" "timer (loop e i s) = [(t_arm i, 5000)]"
    "connect_log (loop e i s) = connect_log s" by simp_all
next
  assume a: "retry s \<and> timer s = [] \<and> (wifi_connected1 i \<or> reconnect_ok i) \<and> wifi_connected2 i \<and>
      \<not> client_connected i \<and> \<not> connect_ok i \<and> t_tick i - t_arm i < 1000"
  then have "\<not> retry (loop e i s) \<and> timer (loop e i s) = [(t_arm i, 1000)] \<and>
         connect_log (loop e i s) = connect_log s @ [use_auth_method s]"
    by (intro mqtt_fail_pass) simp_all
  then show "\<not> retry (loop e i s)" "timer (loop e i s) = [(t_arm i, 1000)]" by simp_all
next
  assume a: "\<not> retry s"
  then show "loop e i s = timer_tick (t_tick i) (duck_run e (received i) s)"
    by (rule loop_waiting)
  then show "wifi_reconnects (loop e i s) = wifi_reconnects s"
    "connect_log (loop e i s) = connect_log s" by simp_all
next
  assume a: "\<not> retry s \<and> timer s = [(st, d)] \<and> d \<le> t_tick i - st"
  then have "retry (loop e i s) \<and> timer (loop e i s) = [] \<and>
         connect_log (loop e i s) = connect_log s \<and>
         wifi_reconnects (loop e i s) = wifi_reconnects s"
    using fire_pass [of s st d i e] by blast
  then show "retry (loop e i s)" "timer (loop e i s) = []" by simp_all
qed

text \<open>
  C6, as the claim states it, fails. With the local network down in the second pass, a
  reconnect is attempted when the MQTT connect of the first pass succeeded and is not
  attempted when it failed: the MQTT wait suppresses the local reconnect. And with the
  network back up at 100, an MQTT connect is attempted from start-up but not after a local
  reconnect failed at 0: the local wait suppresses the MQTT connect.
\<close>
theorem backoffs_not_independent:
  "wifi_reconnects (run (scripted []) [broker_up 0 [], wifi_down 100 []] initial) = 1 \<and>
   wifi_reconnects (run (scripted []) [broker_down 0 [], wifi_down 100 []] initial) = 0 \<and>
   connect_log (run (scripted []) [broker_up 100 []] initial) = [True] \<and>
   connect_log (run (scripted []) [wifi_down 0 [], broker_up 100 []] initial) = []"
  by (simp add: sketch_defs)

theorem shared_retry_flag_witness:
  "\<not> retry (loop (scripted []) (wifi_down 0 []) initial) \<and>
   timer (loop (scripted []) (wifi_down 0 []) initial) = [(0, 5000)] \<and>
   timer (loop (scripted []) (broker_down 0 []) initial) = [(0, 1000)] \<and>
   \<not> retry (loop (scripted []) (broker_down 0 []) initial) \<and>
   wifi_reconnects (loop (scripted []) (wifi_down 100 [])
      (loop (scripted []) (broker_down 0 []) initial)) = 0 \<and>
   connect_log (loop (scripted []) (broker_up 100 [])
      (loop (scripted []) (wifi_down 0 []) initial)) = [] \<and>
   retry (loop (scripted []) (broker_up 1000 [])
      (loop (scripted []) (broker_down 0 []) initial))"
proof -
  let ?e = "scripted []"
  have i: "retry initial" "timer initial = []" "connect_log initial = []"
      "wifi_reconnects initial = 0"
    by (simp_all add: initial_def)
  have wd: "\<not> wifi_connected1 (wifi_down 0 [])" "\<not> reconnect_ok (wifi_down 0 [])"
      "t_tick (wifi_down 0 []) - t_arm (wifi_down 0 []) < 5000"
    by (simp_all add: wifi_down_def)
  have bd: "wifi_connected1 (broker_down 0 [])" "wifi_connected2 (broker_down 0 [])"
      "\<not> client_connected (broker_down 0 [])" "\<not> connect_ok (broker_down 0 [])"
      "t_tick (broker_down 0 []) - t_arm (broker_down 0 []) < 1000" "t_arm (broker_down 0 []) = 0"
    by (simp_all add: broker_down_def)
  have 1: "\<not> retry (loop ?e (wifi_down 0 []) initial) \<and>
      timer (loop ?e (wifi_down 0 []) initial) = [(0, 5000)] \<and>
      connect_log (loop ?e (wifi_down 0 []) initial) = []"
    using shared_retry_flag [of initial "wifi_down 0 []" ?e] i wd by (simp add: wifi_down_def)
  have 2: "\<not> retry (loop ?e (broker_down 0 []) initial) \<and>
      timer (loop ?e (broker_down 0 []) initial) = [(0, 1000)]"
    using shared_retry_flag [of initial "broker_down 0 []" ?e] i bd by simp
  have w0: "wifi_reconnects (loop ?e (broker_down 0 []) initial) = 0"
    by (simp add: sketch_defs)
  have 3: "wifi_reconnects (loop ?e (wifi_down 100 []) (loop ?e (broker_down 0 []) initial)) = 0"
    using shared_retry_flag [of "loop ?e (broker_down 0 []) initial" "wifi_down 100 []" ?e] 2 w0
    by metis
  have 4: "connect_log (loop ?e (broker_up 100 []) (loop ?e (wifi_down 0 []) initial)) = []"
    using shared_retry_flag [of "loop ?e (wifi_down 0 []) initial" "broker_up 100 []" ?e] 1
    by metis
  have "(1000 :: millis) \<le> t_tick (broker_up 1000 []) - 0" by (simp add: broker_up_def)
  then have 5: "retry (loop ?e (broker_up 1000 []) (loop ?e (broker_down 0 []) initial))"
    using shared_retry_flag [of "loop ?e (broker_down 0 []) initial" "broker_up 1000 []" ?e 0 1000] 2
    by blast
  from 1 2 3 4 5 show ?thesis by simp
qed

end
